theory Spec2Isabelle
  imports Complex_Main "HOL-Library.Multiset" "HOL-Library.Sublist"
begin

section \<open>Karma repository: the data model\<close>

text \<open>
  The module \<^verbatim>\<open>app/db/repositories/karma_repository.py\<close> is a data-access layer over one
  collection of a document store. The embedding below follows it method by method. The
  store itself (the driver and the server) is an external collaborator; its
  \<^verbatim>\<open>find\<close>, \<^verbatim>\<open>sort\<close>, \<^verbatim>\<open>insert_one\<close> and the four aggregation stages the module uses
  are modelled by their documented behaviour on a list of documents kept in natural
  (insertion) order.

  A \<^verbatim>\<open>datetime\<close> is a count of microseconds (the resolution of Python's type) on the
  time line the store compares on. An \<^verbatim>\<open>ObjectId\<close> is a natural number.
\<close>

type_synonym datetime = int

type_synonym object_id = nat

text \<open>
  Modelled from the spec: the classes \<^verbatim>\<open>UserReference\<close>, \<^verbatim>\<open>KarmaTransactionCreate\<close> and
  \<^verbatim>\<open>KarmaTransaction\<close> (\<^verbatim>\<open>app/models\<close>) are not among the sources. Section 3 of the
  specification lists their fields: a user reference with a stable id and display
  metadata; a transaction with user, points, action type and domain, to which the store
  adds the identifier and the two timestamps. The enumeration of action types and the
  numeric type of \<^verbatim>\<open>points\<close> are parameters \<open>'a\<close> and \<open>'p\<close>; \<open>'p\<close> is any linearly ordered
  additive group with exact addition (integers, rationals, reals). The totals of
  floating-point points, where an addition rounds, have their own definitions after the
  repository. Opaque metadata that no operation reads is left out.

  \<open>ref_id\<close> is the field \<^verbatim>\<open>id\<close> of the user reference and \<open>txn_id\<close> the field
  \<^verbatim>\<open>_id\<close> of a document, \<open>None\<close> when the key is absent.
\<close>

record user_reference =
  ref_id :: string
  display_name :: string

record ('a, 'p) karma_transaction_create =
  user :: user_reference
  action_type :: 'a
  points :: 'p
  domain :: string

record ('a, 'p) karma_transaction = "('a, 'p) karma_transaction_create" +
  txn_id :: "object_id option"
  created_at :: datetime
  updated_at :: datetime

datatype error = OperationFailure | DuplicateKeyError | IndexError

section \<open>The environment: collection, clock and identifier source\<close>

text \<open>
  \<open>collection\<close> is \<^verbatim>\<open>db.karma_transactions\<close>. \<open>wall_clock\<close> gives the successive
  readings of \<^verbatim>\<open>datetime.now(UTC)\<close> and \<open>ticks\<close> counts the readings taken so far;
  \<open>object_ids\<close> and \<open>issued\<close> do the same for the identifiers the driver generates.
\<close>

record ('a, 'p) world =
  collection :: "('a, 'p) karma_transaction list"
  ticks :: nat
  wall_clock :: "nat \<Rightarrow> datetime"
  issued :: nat
  object_ids :: "nat \<Rightarrow> object_id"

definition now :: "('a, 'p) world \<Rightarrow> datetime \<times> ('a, 'p) world" where
  "now w = (wall_clock w (ticks w), w\<lparr>ticks := Suc (ticks w)\<rparr>)"

definition ObjectId :: "('a, 'p) world \<Rightarrow> object_id \<times> ('a, 'p) world" where
  "ObjectId w = (object_ids w (issued w), w\<lparr>issued := Suc (issued w)\<rparr>)"

section \<open>Queries\<close>

text \<open>
  A query document of the module has at most the keys \<^verbatim>\<open>user.id\<close>, \<^verbatim>\<open>domain\<close>,
  \<^verbatim>\<open>action_type\<close> and \<^verbatim>\<open>created_at\<close>; the last one holds a sub-document with the
  optional operators \<^verbatim>\<open>$gte\<close> and \<^verbatim>\<open>$lte\<close>. An absent key is \<open>None\<close>.
\<close>

record 'a query =
  q_user_id :: "string option"
  q_domain :: "string option"
  q_action_type :: "'a option"
  q_created_at :: "(datetime option \<times> datetime option) option"

definition empty_query :: "'a query" where
  "empty_query = \<lparr>q_user_id = None, q_domain = None, q_action_type = None, q_created_at = None\<rparr>"

text \<open>
  A condition on an absent key holds. A sub-document without operators would ask for
  equality with the empty document, which no timestamp satisfies.
\<close>

definition eq_cond :: "'k option \<Rightarrow> 'k \<Rightarrow> bool" where
  "eq_cond c v = (case c of None \<Rightarrow> True | Some x \<Rightarrow> v = x)"

definition range_cond :: "(datetime option \<times> datetime option) option \<Rightarrow> datetime \<Rightarrow> bool" where
  "range_cond c v =
     (case c of
        None \<Rightarrow> True
      | Some (None, None) \<Rightarrow> False
      | Some (gte, lte) \<Rightarrow>
          (case gte of None \<Rightarrow> True | Some lo \<Rightarrow> lo \<le> v) \<and>
          (case lte of None \<Rightarrow> True | Some hi \<Rightarrow> v \<le> hi))"

definition matches :: "'a query \<Rightarrow> ('a, 'p) karma_transaction \<Rightarrow> bool" where
  "matches q t =
     (eq_cond (q_user_id q) (ref_id (user t)) \<and>
      eq_cond (q_domain q) (domain t) \<and>
      eq_cond (q_action_type q) (action_type t) \<and>
      range_cond (q_created_at q) (created_at t))"

text \<open>
  The block every dated method repeats:
  \<^verbatim>\<open>
  if start_date or end_date:
      query["created_at"] = {}
      if start_date: query["created_at"]["$gte"] = start_date
      if end_date:   query["created_at"]["$lte"] = end_date
  \<close>
  A \<^verbatim>\<open>datetime\<close> object is always true, so an optional date is true exactly when it is
  given.
\<close>

definition date_range :: "datetime option \<Rightarrow> datetime option \<Rightarrow> 'a query \<Rightarrow> 'a query" where
  "date_range start_date end_date query =
     (if start_date \<noteq> None \<or> end_date \<noteq> None
      then query\<lparr>q_created_at := Some (start_date, end_date)\<rparr>
      else query)"

section \<open>Store operations\<close>

text \<open>
  \<^verbatim>\<open>find\<close> and \<^verbatim>\<open>aggregate\<close> (without an output stage) read the collection and give the
  environment back as it was. \<^verbatim>\<open>insert_one\<close> gives a document without \<^verbatim>\<open>_id\<close> a
  generated identifier; the unique index on \<^verbatim>\<open>_id\<close> rejects an identifier that is
  already present. The encoding of a document is not modelled: a timestamp is kept and
  compared as it is given, where the store keeps whole milliseconds.
\<close>

definition find :: "'a query \<Rightarrow> ('a, 'p) world \<Rightarrow> ('a, 'p) karma_transaction list \<times> ('a, 'p) world" where
  "find query w = (filter (matches query) (collection w), w)"

text \<open>\<^verbatim>\<open>cursor.sort("created_at", -1)\<close>: descending is ascending on the negated key.\<close>

definition sort_created_at_desc ::
  "('a, 'p) karma_transaction list \<Rightarrow> ('a, 'p) karma_transaction list" where
  "sort_created_at_desc ts = sort_key (\<lambda>t. - created_at t) ts"

definition to_list :: "nat option \<Rightarrow> 'x list \<Rightarrow> 'x list" where
  "to_list len xs = (case len of None \<Rightarrow> xs | Some n \<Rightarrow> take n xs)"

definition insert_one ::
  "('a, 'p) karma_transaction \<Rightarrow> ('a, 'p) world \<Rightarrow> (error + object_id) \<times> ('a, 'p) world" where
  "insert_one doc w =
     (let (oid, w1) = (case txn_id doc of None \<Rightarrow> ObjectId w | Some i \<Rightarrow> (i, w))
      in if Some oid \<in> set (map txn_id (collection w1))
         then (Inl DuplicateKeyError, w1)
         else (Inr oid, w1\<lparr>collection := collection w1 @ [doc\<lparr>txn_id := Some oid\<rparr>]\<rparr>))"

subsection \<open>Aggregation stages\<close>

definition match_stage ::
  "'a query \<Rightarrow> ('a, 'p) karma_transaction list \<Rightarrow> ('a, 'p) karma_transaction list" where
  "match_stage query ds = filter (matches query) ds"

text \<open>
  \<^verbatim>\<open>{"$group": {"_id": None, "total": {"$sum": "$points"}}}\<close>: one group for all the
  input, and no group when there is no input.
\<close>

record 'p total_group =
  total :: 'p

definition group_all ::
  "('a, 'p::linordered_ab_group_add) karma_transaction list \<Rightarrow> 'p total_group list" where
  "group_all ds = (if ds = [] then [] else [\<lparr>total = sum_list (map points ds)\<rparr>])"

text \<open>
  \<^verbatim>\<open>{"$group": {"_id": "$user.id", "total_points": {"$sum": "$points"},
  "user": {"$first": "$user"}}}\<close>: the stage keeps one accumulator per key; a document
  adds its points to the accumulator of its key, or opens one holding its points and its
  user.
\<close>

record 'p user_group =
  group_id :: string
  total_points :: 'p
  group_user :: user_reference

fun accumulate ::
  "('a, 'p::linordered_ab_group_add) karma_transaction \<Rightarrow> 'p user_group list \<Rightarrow> 'p user_group list" where
  "accumulate t [] =
     [\<lparr>group_id = ref_id (user t), total_points = points t, group_user = user t\<rparr>]"
| "accumulate t (g # gs) =
     (if group_id g = ref_id (user t)
      then g\<lparr>total_points := total_points g + points t\<rparr> # gs
      else g # accumulate t gs)"

definition group_by_user ::
  "('a, 'p::linordered_ab_group_add) karma_transaction list \<Rightarrow> 'p user_group list" where
  "group_by_user ds = fold accumulate ds []"

text \<open>\<^verbatim>\<open>{"$sort": {"total_points": -1}}\<close>\<close>

definition sort_total_points_desc ::
  "('p::linordered_ab_group_add) user_group list \<Rightarrow> 'p user_group list" where
  "sort_total_points_desc gs = sort_key (\<lambda>g. - total_points g) gs"

text \<open>
  \<^verbatim>\<open>{"$limit": n}\<close>: the store accepts a positive integer only and fails the whole
  aggregation otherwise.
\<close>

definition limit_stage :: "int \<Rightarrow> 'x list \<Rightarrow> error + 'x list" where
  "limit_stage n xs = (if n \<le> 0 then Inl OperationFailure else Inr (take (nat n) xs))"

text \<open>The two pipelines of the module, run against the collection.\<close>

definition aggregate_total ::
  "'a query \<Rightarrow> ('a, 'p::linordered_ab_group_add) world \<Rightarrow> 'p total_group list \<times> ('a, 'p) world" where
  "aggregate_total query w = (group_all (match_stage query (collection w)), w)"

definition aggregate_top ::
  "'a query \<Rightarrow> int \<Rightarrow> ('a, 'p::linordered_ab_group_add) world
     \<Rightarrow> (error + 'p user_group list) \<times> ('a, 'p) world" where
  "aggregate_top match limit w =
     (limit_stage limit (sort_total_points_desc (group_by_user (match_stage match (collection w)))), w)"

text \<open>Python's \<^verbatim>\<open>xs[i]\<close> for a non-negative index.\<close>

definition subscript :: "'x list \<Rightarrow> nat \<Rightarrow> error + 'x" where
  "subscript xs i = (if i < length xs then Inr (xs ! i) else Inl IndexError)"

section \<open>The repository\<close>

text \<open>
  The methods of \<^verbatim>\<open>KarmaRepository\<close>, in the order of the source. Each takes the
  environment and returns its result together with the environment after the call. A
  stored document has the shape of the entity, so the mapping
  \<^verbatim>\<open>KarmaTransaction(**t)\<close> of the listings is the identity. In
  \<^verbatim>\<open>create_transaction\<close> the clock is read twice, once for each timestamp.
\<close>

definition create_transaction ::
  "('a, 'p) karma_transaction_create \<Rightarrow> ('a, 'p) world
     \<Rightarrow> (error + ('a, 'p) karma_transaction) \<times> ('a, 'p) world" where
  "create_transaction transaction w =
     (let (t1, w1) = now w;
          (t2, w2) = now w1;
          transaction_dict =
            \<lparr>user = user transaction, action_type = action_type transaction,
             points = points transaction, domain = domain transaction,
             txn_id = None, created_at = t1, updated_at = t2\<rparr>;
          (result, w3) = insert_one transaction_dict w2
      in case result of
           Inl e \<Rightarrow> (Inl e, w3)
         | Inr inserted_id \<Rightarrow> (Inr (transaction_dict\<lparr>txn_id := Some inserted_id\<rparr>), w3))"

definition karma_total :: "('p::linordered_ab_group_add) total_group list \<Rightarrow> error + 'p" where
  "karma_total result =
     (if result \<noteq> [] then map_sum id total (subscript result 0) else Inr 0)"

definition get_user_karma ::
  "string \<Rightarrow> datetime option \<Rightarrow> datetime option \<Rightarrow> ('a, 'p::linordered_ab_group_add) world
     \<Rightarrow> (error + 'p) \<times> ('a, 'p) world" where
  "get_user_karma user_id start_date end_date w =
     (let query = date_range start_date end_date (empty_query\<lparr>q_user_id := Some user_id\<rparr>);
          (result, w') = aggregate_total query w
      in (karma_total (to_list (Some 1) result), w'))"

definition get_user_karma_by_domain ::
  "string \<Rightarrow> string \<Rightarrow> datetime option \<Rightarrow> datetime option
     \<Rightarrow> ('a, 'p::linordered_ab_group_add) world \<Rightarrow> (error + 'p) \<times> ('a, 'p) world" where
  "get_user_karma_by_domain user_id domain' start_date end_date w =
     (let query = date_range start_date end_date
                    (empty_query\<lparr>q_user_id := Some user_id, q_domain := Some domain'\<rparr>);
          (result, w') = aggregate_total query w
      in (karma_total (to_list (Some 1) result), w'))"

definition get_user_actions ::
  "string \<Rightarrow> datetime option \<Rightarrow> datetime option \<Rightarrow> ('a, 'p) world
     \<Rightarrow> ('a, 'p) karma_transaction list \<times> ('a, 'p) world" where
  "get_user_actions user_id start_date end_date w =
     (let query = date_range start_date end_date (empty_query\<lparr>q_user_id := Some user_id\<rparr>);
          (cursor, w') = find query w;
          transactions = to_list None (sort_created_at_desc cursor)
      in (transactions, w'))"

definition get_user_actions_by_domain ::
  "string \<Rightarrow> string \<Rightarrow> datetime option \<Rightarrow> datetime option \<Rightarrow> ('a, 'p) world
     \<Rightarrow> ('a, 'p) karma_transaction list \<times> ('a, 'p) world" where
  "get_user_actions_by_domain user_id domain' start_date end_date w =
     (let query = date_range start_date end_date
                    (empty_query\<lparr>q_user_id := Some user_id, q_domain := Some domain'\<rparr>);
          (cursor, w') = find query w;
          transactions = to_list None (sort_created_at_desc cursor)
      in (transactions, w'))"

text \<open>
  Calendar arithmetic of \<^verbatim>\<open>get_user_actions_today\<close>: \<^verbatim>\<open>date.date()\<close> is the day a
  timestamp falls on, \<^verbatim>\<open>datetime.min.time()\<close> is 00:00:00.000000, \<^verbatim>\<open>datetime.max.time()\<close>
  is 23:59:59.999999, and \<^verbatim>\<open>datetime.combine\<close> puts a day and a time of day together.
\<close>

definition microseconds_per_day :: int where
  "microseconds_per_day = 24 * 60 * 60 * 1000000"

definition date_of :: "datetime \<Rightarrow> int" where
  "date_of d = d div microseconds_per_day"

definition time_min :: int where
  "time_min = 0"

definition time_max :: int where
  "time_max = ((23 * 60 + 59) * 60 + 59) * 1000000 + 999999"

definition combine :: "int \<Rightarrow> int \<Rightarrow> datetime" where
  "combine day time_of_day = day * microseconds_per_day + time_of_day"

definition get_user_actions_today ::
  "string \<Rightarrow> 'a \<Rightarrow> datetime \<Rightarrow> ('a, 'p) world
     \<Rightarrow> ('a, 'p) karma_transaction list \<times> ('a, 'p) world" where
  "get_user_actions_today user_id action date w =
     (let start_of_day = combine (date_of date) time_min;
          end_of_day = combine (date_of date) time_max;
          query = \<lparr>q_user_id = Some user_id, q_domain = None, q_action_type = Some action,
                   q_created_at = Some (Some start_of_day, Some end_of_day)\<rparr>;
          (cursor, w') = find query w
      in (to_list None cursor, w'))"

text \<open>
  \<^verbatim>\<open>if domain:\<close> on an optional string: \<^verbatim>\<open>None\<close> and the empty string are both false.
\<close>

definition truthy :: "string option \<Rightarrow> bool" where
  "truthy s = (case s of None \<Rightarrow> False | Some x \<Rightarrow> x \<noteq> [])"

definition get_top_users ::
  "int \<Rightarrow> string option \<Rightarrow> ('a, 'p::linordered_ab_group_add) world
     \<Rightarrow> (error + 'p user_group list) \<times> ('a, 'p) world" where
  "get_top_users limit domain' w =
     (let match = (if truthy domain' then empty_query\<lparr>q_domain := domain'\<rparr> else empty_query);
          (result, w') = aggregate_top match limit w
      in (map_sum id (to_list None) result, w'))"

subsection \<open>Totals of floating-point points\<close>

text \<open>
  The totals are of Python's type \<^verbatim>\<open>float\<close>, an IEEE 754 double. A finite double is
  modelled by the rational number it denotes, and \<open>round_double\<close> gives the double
  nearest to a rational, ties going to the even mantissa (53 bits, the smallest exponent
  \<open>-1074\<close>; overflow to infinity is not modelled). The sum accumulator of the store and
  Python's \<^verbatim>\<open>+\<close> add two doubles exactly and round the result.
\<close>

fun bit_length :: "nat \<Rightarrow> nat" where
  "bit_length n = (if n = 0 then 0 else Suc (bit_length (n div 2)))"

definition pow2 :: "int \<Rightarrow> rat" where
  "pow2 e = (if 0 \<le> e then 2 ^ nat e else 1 / 2 ^ nat (- e))"

text \<open>For a positive rational, the exponent of the largest power of two not above it.\<close>

definition ilog2 :: "rat \<Rightarrow> int" where
  "ilog2 a =
     (if 1 \<le> a then int (bit_length (nat \<lfloor>a\<rfloor>)) - 1
      else - int (bit_length (nat (\<lceil>1 / a\<rceil> - 1))))"

definition round_half_even :: "rat \<Rightarrow> int" where
  "round_half_even m =
     (let f = \<lfloor>m\<rfloor>; r = m - of_int f
      in if r < 1 / 2 then f else if 1 / 2 < r then f + 1 else if even f then f else f + 1)"

definition round_double :: "rat \<Rightarrow> rat" where
  "round_double a =
     (if a = 0 then 0
      else let e = max (ilog2 \<bar>a\<bar> - 52) (- 1074)
           in sgn a * of_int (round_half_even (\<bar>a\<bar> / pow2 e)) * pow2 e)"

definition double_add :: "rat \<Rightarrow> rat \<Rightarrow> rat" where
  "double_add x y = round_double (x + y)"

text \<open>\<^verbatim>\<open>{"$sum": "$points"}\<close> on doubles: the accumulator starts at zero and adds the
  points in scan order.\<close>

definition sum_double :: "rat list \<Rightarrow> rat" where
  "sum_double xs = foldl double_add 0 xs"

definition group_all_double :: "('a, rat) karma_transaction list \<Rightarrow> rat total_group list" where
  "group_all_double ds = (if ds = [] then [] else [\<lparr>total = sum_double (map points ds)\<rparr>])"

definition aggregate_total_double ::
  "'a query \<Rightarrow> ('a, rat) world \<Rightarrow> rat total_group list \<times> ('a, rat) world" where
  "aggregate_total_double query w = (group_all_double (match_stage query (collection w)), w)"

text \<open>
  \<^verbatim>\<open>get_user_karma\<close> and \<^verbatim>\<open>get_user_karma_by_domain\<close> over a collection whose points
  are doubles: the same methods, with the store summing in double arithmetic.
\<close>

definition get_user_karma_double ::
  "string \<Rightarrow> datetime option \<Rightarrow> datetime option \<Rightarrow> ('a, rat) world
     \<Rightarrow> (error + rat) \<times> ('a, rat) world" where
  "get_user_karma_double user_id start_date end_date w =
     (let query = date_range start_date end_date (empty_query\<lparr>q_user_id := Some user_id\<rparr>);
          (result, w') = aggregate_total_double query w
      in (karma_total (to_list (Some 1) result), w'))"

definition get_user_karma_by_domain_double ::
  "string \<Rightarrow> string \<Rightarrow> datetime option \<Rightarrow> datetime option \<Rightarrow> ('a, rat) world
     \<Rightarrow> (error + rat) \<times> ('a, rat) world" where
  "get_user_karma_by_domain_double user_id domain' start_date end_date w =
     (let query = date_range start_date end_date
                    (empty_query\<lparr>q_user_id := Some user_id, q_domain := Some domain'\<rparr>);
          (result, w') = aggregate_total_double query w
      in (karma_total (to_list (Some 1) result), w'))"

section \<open>Definitions in the words of the specification\<close>

subsection \<open>The matching sets of the dated methods\<close>

text \<open>
  The specification describes the filter of the dated methods as: the user's id is the
  given one and, where a bound is supplied, \<^verbatim>\<open>created_at\<close> lies in
  \<^verbatim>\<open>[start_date, end_date]\<close>, both ends included; the by-domain variants add exact
  equality on the domain. These definitions follow that wording, not the code.
\<close>

definition in_closed_range :: "datetime option \<Rightarrow> datetime option \<Rightarrow> datetime \<Rightarrow> bool" where
  "in_closed_range start_date end_date v =
     ((case start_date of None \<Rightarrow> True | Some lo \<Rightarrow> lo \<le> v) \<and>
      (case end_date of None \<Rightarrow> True | Some hi \<Rightarrow> v \<le> hi))"

definition matching ::
  "string \<Rightarrow> datetime option \<Rightarrow> datetime option \<Rightarrow> ('a, 'p) karma_transaction list
     \<Rightarrow> ('a, 'p) karma_transaction list" where
  "matching user_id start_date end_date ds =
     filter (\<lambda>t. ref_id (user t) = user_id \<and> in_closed_range start_date end_date (created_at t)) ds"

definition matching_in_domain ::
  "string \<Rightarrow> string \<Rightarrow> datetime option \<Rightarrow> datetime option \<Rightarrow> ('a, 'p) karma_transaction list
     \<Rightarrow> ('a, 'p) karma_transaction list" where
  "matching_in_domain user_id domain' start_date end_date ds =
     filter (\<lambda>t. domain t = domain') (matching user_id start_date end_date ds)"

subsection \<open>The leaderboard\<close>

text \<open>
  In the words of the specification: the users that have a transaction, each once; the
  sum of a user's points; and the transactions the optional domain selects (all of them
  when no domain, or the empty string, is given).
\<close>

definition users_of :: "('a, 'p) karma_transaction list \<Rightarrow> string list" where
  "users_of ds = remdups (map (\<lambda>t. ref_id (user t)) ds)"

definition user_total ::
  "('a, 'p::linordered_ab_group_add) karma_transaction list \<Rightarrow> string \<Rightarrow> 'p" where
  "user_total ds u = sum_list (map points (filter (\<lambda>t. ref_id (user t) = u) ds))"

definition in_domain ::
  "string option \<Rightarrow> ('a, 'p) karma_transaction list \<Rightarrow> ('a, 'p) karma_transaction list" where
  "in_domain domain' ds =
     (case domain' of
        None \<Rightarrow> ds
      | Some d \<Rightarrow> if d = [] then ds else filter (\<lambda>t. domain t = d) ds)"

text \<open>The points accumulated under one key in a list of groups.\<close>

definition total_of :: "('p::linordered_ab_group_add) user_group list \<Rightarrow> string \<Rightarrow> 'p" where
  "total_of gs u = sum_list (map total_points (filter (\<lambda>g. group_id g = u) gs))"

subsection \<open>Sums of results\<close>

text \<open>
  The sum a caller forms from the results of successive calls, as Python's \<^verbatim>\<open>sum\<close>
  does: starting at zero, each value is added in double arithmetic; the first error, if
  any, is the outcome.
\<close>

definition add_result :: "error + rat \<Rightarrow> error + rat \<Rightarrow> error + rat" where
  "add_result acc r =
     (case acc of
        Inl e \<Rightarrow> Inl e
      | Inr x \<Rightarrow> (case r of Inl e \<Rightarrow> Inl e | Inr y \<Rightarrow> Inr (double_add x y)))"

definition sum_results_double :: "(error + rat) list \<Rightarrow> error + rat" where
  "sum_results_double rs = foldl add_result (Inr 0) rs"

section \<open>Example data\<close>

text \<open>
  The scenario of section 8 of the specification: user A earns 5 points in domain x and
  3 in domain y, user B earns 10 in domain x.
\<close>

definition user_A :: user_reference where
  "user_A = \<lparr>ref_id = ''A'', display_name = ''Ada''\<rparr>"

definition user_B :: user_reference where
  "user_B = \<lparr>ref_id = ''B'', display_name = ''Bob''\<rparr>"

definition like_x :: "(string, int) karma_transaction" where
  "like_x = \<lparr>user = user_A, action_type = ''LIKE'', points = 5, domain = ''x'',
             txn_id = Some 0, created_at = 10, updated_at = 10\<rparr>"

definition like_y :: "(string, int) karma_transaction" where
  "like_y = \<lparr>user = user_A, action_type = ''LIKE'', points = 3, domain = ''y'',
             txn_id = Some 1, created_at = 20, updated_at = 20\<rparr>"

definition post_x :: "(string, int) karma_transaction" where
  "post_x = \<lparr>user = user_B, action_type = ''POST'', points = 10, domain = ''x'',
             txn_id = Some 2, created_at = 30, updated_at = 30\<rparr>"

definition scenario :: "(string, int) world" where
  "scenario =
     \<lparr>collection = [like_x, like_y, post_x],
      ticks = 0, wall_clock = (\<lambda>n. 100 + int n),
      issued = 3, object_ids = (\<lambda>n. n)\<rparr>"

text \<open>
  A log around one calendar day: day 1 runs from microsecond 86400000000 to microsecond
  172799999999. User A likes at the first and at the last microsecond of the day, at the
  first microsecond of the next day and at the last one of the day before, and posts once
  during the day.
\<close>

definition stamped :: "string \<Rightarrow> object_id \<Rightarrow> datetime \<Rightarrow> (string, int) karma_transaction" where
  "stamped action i stamp =
     \<lparr>user = user_A, action_type = action, points = 1, domain = ''x'',
      txn_id = Some i, created_at = stamp, updated_at = stamp\<rparr>"

definition day_log :: "(string, int) world" where
  "day_log =
     \<lparr>collection =
        [stamped ''LIKE'' 0 86399999999,
         stamped ''LIKE'' 1 86400000000,
         stamped ''POST'' 2 100000000000,
         stamped ''LIKE'' 3 172799999999,
         stamped ''LIKE'' 4 172800000000],
      ticks = 0, wall_clock = (\<lambda>n. 172800000001 + int n),
      issued = 5, object_ids = (\<lambda>n. n)\<rparr>"

text \<open>
  A new transaction for the scenario, and the entity the scenario's clock and identifier
  source make of it: identifier 3, stamped at the readings 100 and 101.
\<close>

definition new_post :: "(string, int) karma_transaction_create" where
  "new_post = \<lparr>user = user_A, action_type = ''POST'', points = 7, domain = ''y''\<rparr>"

definition posted :: "(string, int) karma_transaction" where
  "posted = \<lparr>user = user_A, action_type = ''POST'', points = 7, domain = ''y'',
             txn_id = Some 3, created_at = 100, updated_at = 101\<rparr>"

text \<open>
  A leaderboard of five users with the distinct totals 7, 12, 1, 9 and 15; one of them
  carries a penalty.
\<close>

definition earned :: "string \<Rightarrow> int \<Rightarrow> object_id \<Rightarrow> (string, int) karma_transaction" where
  "earned u p i =
     \<lparr>user = \<lparr>ref_id = u, display_name = u\<rparr>, action_type = ''LIKE'', points = p,
      domain = ''x'', txn_id = Some i, created_at = int i, updated_at = int i\<rparr>"

definition leaderboard :: "(string, int) world" where
  "leaderboard =
     \<lparr>collection =
        [earned ''u1'' 4 0, earned ''u2'' 12 1, earned ''u3'' 1 2, earned ''u4'' 5 3,
         earned ''u5'' 20 4, earned ''u1'' 3 5, earned ''u4'' 4 6, earned ''u5'' (- 5) 7],
      ticks = 0, wall_clock = (\<lambda>n. 100 + int n),
      issued = 8, object_ids = (\<lambda>n. n)\<rparr>"

text \<open>
  Two logs of user A over the domains x and y. In \<open>tenths\<close> the points are the doubles
  of 0.1, 0.2 and 0.4; in \<open>quarters\<close> they are 0.5, 0.25 and 0.75, whose sums are all
  doubles.
\<close>

definition earned_in :: "string \<Rightarrow> rat \<Rightarrow> object_id \<Rightarrow> (string, rat) karma_transaction" where
  "earned_in d p i =
     \<lparr>user = user_A, action_type = ''LIKE'', points = p, domain = d,
      txn_id = Some i, created_at = int i, updated_at = int i\<rparr>"

definition tenths :: "(string, rat) world" where
  "tenths =
     \<lparr>collection =
        [earned_in ''x'' (round_double (1 / 10)) 0,
         earned_in ''y'' (round_double (1 / 5)) 1,
         earned_in ''x'' (round_double (2 / 5)) 2],
      ticks = 0, wall_clock = (\<lambda>n. 100 + int n),
      issued = 3, object_ids = (\<lambda>n. n)\<rparr>"

definition quarters :: "(string, rat) world" where
  "quarters =
     \<lparr>collection =
        [earned_in ''x'' (1 / 2) 0, earned_in ''y'' (1 / 4) 1, earned_in ''x'' (3 / 4) 2],
      ticks = 0, wall_clock = (\<lambda>n. 100 + int n),
      issued = 3, object_ids = (\<lambda>n. n)\<rparr>"

text \<open>The defining equations, grouped for evaluating the examples.\<close>

lemmas query_defs =
  matches_def eq_cond_def range_cond_def date_range_def empty_query_def in_closed_range_def
  matching_def matching_in_domain_def

lemmas example_defs =
  user_A_def user_B_def like_x_def like_y_def post_x_def scenario_def stamped_def day_log_def

lemmas store_defs =
  now_def ObjectId_def insert_one_def
  find_def sort_created_at_desc_def to_list_def match_stage_def group_all_def
  group_by_user_def sort_total_points_desc_def limit_stage_def aggregate_total_def
  aggregate_top_def subscript_def karma_total_def

lemmas repository_defs =
  create_transaction_def get_user_karma_def get_user_karma_by_domain_def get_user_actions_def
  get_user_actions_by_domain_def get_user_actions_today_def get_top_users_def truthy_def
  microseconds_per_day_def date_of_def time_min_def time_max_def combine_def

section \<open>The queries the methods build\<close>

lemma range_cond_date_range:
  "range_cond (q_created_at (date_range s e q)) v =
     (range_cond (q_created_at q) v \<and> s = None \<and> e = None \<or>
      (s \<noteq> None \<or> e \<noteq> None) \<and> in_closed_range s e v)"
  by (auto simp: date_range_def range_cond_def in_closed_range_def split: option.splits)

lemma matches_user_query:
  "matches (date_range s e (empty_query\<lparr>q_user_id := Some u\<rparr>)) t =
     (ref_id (user t) = u \<and> in_closed_range s e (created_at t))"
  by (auto simp: matches_def date_range_def range_cond_def in_closed_range_def eq_cond_def
      empty_query_def split: option.splits)

lemma matches_user_domain_query:
  "matches (date_range s e (empty_query\<lparr>q_user_id := Some u, q_domain := Some d\<rparr>)) t =
     (ref_id (user t) = u \<and> domain t = d \<and> in_closed_range s e (created_at t))"
  by (auto simp: matches_def date_range_def range_cond_def in_closed_range_def eq_cond_def
      empty_query_def split: option.splits)

lemma match_stage_user:
  "match_stage (date_range s e (empty_query\<lparr>q_user_id := Some u\<rparr>)) ds = matching u s e ds"
  unfolding match_stage_def matching_def
  by (rule filter_cong) (simp_all add: matches_user_query)

lemma match_stage_user_domain:
  "match_stage (date_range s e (empty_query\<lparr>q_user_id := Some u, q_domain := Some d\<rparr>)) ds =
     matching_in_domain u d s e ds"
  unfolding match_stage_def matching_in_domain_def matching_def filter_filter
  by (rule filter_cong) (auto simp: matches_user_domain_query)

lemma karma_total_group_all:
  "karma_total (to_list (Some (Suc 0)) (group_all ds)) = Inr (sum_list (map points ds))"
  by (simp add: karma_total_def to_list_def group_all_def subscript_def)

lemma get_user_karma_sum:
  "fst (get_user_karma u s e w) = Inr (sum_list (map points (matching u s e (collection w))))"
  by (simp add: get_user_karma_def aggregate_total_def match_stage_user karma_total_group_all)

lemma get_user_karma_by_domain_sum:
  "fst (get_user_karma_by_domain u d s e w) =
     Inr (sum_list (map points (matching_in_domain u d s e (collection w))))"
  by (simp add: get_user_karma_by_domain_def aggregate_total_def match_stage_user_domain
      karma_total_group_all)

lemma matches_empty_query: "matches empty_query t"
  by (simp add: matches_def empty_query_def eq_cond_def range_cond_def)

lemma match_stage_empty_query: "match_stage empty_query ds = ds"
  by (simp add: match_stage_def matches_empty_query)

lemma map_sum_to_list_None: "map_sum id (to_list None) r = r"
  by (cases r) (simp_all add: to_list_def)

section \<open>Empty aggregations\<close>

text \<open>
  Claim C1. In every state of the store, for every user, every pair of optional date
  bounds and every domain: when no persisted transaction matches the filter,
  \<^verbatim>\<open>get_user_karma\<close> and \<^verbatim>\<open>get_user_karma_by_domain\<close> return the value zero, and they
  return it as a value, not as an error.
\<close>

theorem karma_of_empty_match_is_zero:
  "(matching user_id start_date end_date (collection w) = []
      \<longrightarrow> fst (get_user_karma user_id start_date end_date w) = Inr 0) \<and>
   (matching_in_domain user_id domain' start_date end_date (collection w) = []
      \<longrightarrow> fst (get_user_karma_by_domain user_id domain' start_date end_date w) = Inr 0)"
  by (simp add: get_user_karma_sum get_user_karma_by_domain_sum)

theorem karma_of_empty_match_is_zero_witness:
  "fst (get_user_karma ''C'' None None scenario) = Inr 0 \<and>
   fst (get_user_karma ''A'' (Some 21) (Some 40) scenario) = Inr 0 \<and>
   fst (get_user_karma_by_domain ''B'' ''y'' None None scenario) = Inr 0"
proof -
  have 1: "matching ''C'' None None (collection scenario) = []"
    by (simp add: example_defs query_defs)
  have 2: "matching ''A'' (Some 21) (Some 40) (collection scenario) = []"
    by (simp add: example_defs query_defs)
  have 3: "matching_in_domain ''B'' ''y'' None None (collection scenario) = []"
    by (simp add: example_defs query_defs)
  show ?thesis
    using karma_of_empty_match_is_zero [of "''C''" None None scenario "''y''"]
      karma_of_empty_match_is_zero [of "''A''" "Some 21" "Some 40" scenario "''y''"]
      karma_of_empty_match_is_zero [of "''B''" None None scenario "''y''"]
      1 2 3
    by simp
qed

section \<open>The date-range filter\<close>

lemma get_user_actions_mset:
  "mset (fst (get_user_actions u s e w)) = mset (matching u s e (collection w))"
  by (simp add: get_user_actions_def find_def to_list_def sort_created_at_desc_def
      match_stage_user [unfolded match_stage_def])

lemma get_user_actions_by_domain_mset:
  "mset (fst (get_user_actions_by_domain u d s e w)) =
     mset (matching_in_domain u d s e (collection w))"
  by (simp add: get_user_actions_by_domain_def find_def to_list_def sort_created_at_desc_def
      match_stage_user_domain [unfolded match_stage_def])

lemma sum_list_points_mset:
  fixes xs ys :: "('a, 'p::linordered_ab_group_add) karma_transaction list"
  assumes "mset xs = mset ys"
  shows "sum_list (map points xs) = sum_list (map points ys)"
proof -
  from assms
  have "sum_mset (mset (map points xs)) = sum_mset (mset (map points ys))"
    by simp
  then show ?thesis
    by (simp only: sum_mset_sum_list)
qed

lemma karma_is_sum_over_actions:
  "fst (get_user_karma u s e w) = Inr (sum_list (map points (fst (get_user_actions u s e w))))"
  by (simp add: get_user_karma_sum sum_list_points_mset [OF get_user_actions_mset])

lemma karma_by_domain_is_sum_over_actions:
  "fst (get_user_karma_by_domain u d s e w) =
     Inr (sum_list (map points (fst (get_user_actions_by_domain u d s e w))))"
  by (simp add: get_user_karma_by_domain_sum
      sum_list_points_mset [OF get_user_actions_by_domain_mset])

lemma get_user_actions_set:
  "set (fst (get_user_actions u s e w)) =
     {t \<in> set (collection w). ref_id (user t) = u \<and> in_closed_range s e (created_at t)}"
proof -
  have "set (fst (get_user_actions u s e w)) = set (matching u s e (collection w))"
    by (rule mset_eq_setD [OF get_user_actions_mset])
  then show ?thesis by (auto simp: matching_def)
qed

lemma get_user_actions_by_domain_set:
  "set (fst (get_user_actions_by_domain u d s e w)) =
     {t \<in> set (collection w).
        ref_id (user t) = u \<and> domain t = d \<and> in_closed_range s e (created_at t)}"
proof -
  have "set (fst (get_user_actions_by_domain u d s e w)) =
        set (matching_in_domain u d s e (collection w))"
    by (rule mset_eq_setD [OF get_user_actions_by_domain_mset])
  then show ?thesis by (auto simp: matching_in_domain_def matching_def)
qed

lemma boundary_in_range:
  "lo \<le> hi \<Longrightarrow> in_closed_range (Some lo) (Some hi) lo \<and> in_closed_range (Some lo) (Some hi) hi"
  "in_closed_range (Some lo) None lo"
  "in_closed_range None (Some hi) hi"
  by (simp_all add: in_closed_range_def)

text \<open>
  Claim C2. In every state of the store and for all supplied bounds, the date-range filter
  of \<^verbatim>\<open>get_user_karma\<close>, \<^verbatim>\<open>get_user_karma_by_domain\<close>, \<^verbatim>\<open>get_user_actions\<close> and
  \<^verbatim>\<open>get_user_actions_by_domain\<close> includes both bounds. The two listings return exactly
  the user's transactions (of the domain) whose \<^verbatim>\<open>created_at\<close> lies in the closed range,
  the two totals are the sums of the points over those listings, and a transaction of the
  user whose \<^verbatim>\<open>created_at\<close> equals the start bound, or the end bound, is in the listing.
\<close>

theorem date_range_bounds_inclusive:
  "set (fst (get_user_actions user_id start_date end_date w)) =
     {t \<in> set (collection w).
        ref_id (user t) = user_id \<and> in_closed_range start_date end_date (created_at t)} \<and>
   set (fst (get_user_actions_by_domain user_id domain' start_date end_date w)) =
     {t \<in> set (collection w).
        ref_id (user t) = user_id \<and> domain t = domain' \<and>
        in_closed_range start_date end_date (created_at t)} \<and>
   fst (get_user_karma user_id start_date end_date w) =
     Inr (sum_list (map points (fst (get_user_actions user_id start_date end_date w)))) \<and>
   fst (get_user_karma_by_domain user_id domain' start_date end_date w) =
     Inr (sum_list (map points
            (fst (get_user_actions_by_domain user_id domain' start_date end_date w)))) \<and>
   (t \<in> set (collection w) \<and> ref_id (user t) = user_id \<and> lo \<le> hi \<and>
    (created_at t = lo \<or> created_at t = hi)
      \<longrightarrow> t \<in> set (fst (get_user_actions user_id (Some lo) (Some hi) w))) \<and>
   (t \<in> set (collection w) \<and> ref_id (user t) = user_id \<and> domain t = domain' \<and> lo \<le> hi \<and>
    (created_at t = lo \<or> created_at t = hi)
      \<longrightarrow> t \<in> set (fst (get_user_actions_by_domain user_id domain' (Some lo) (Some hi) w))) \<and>
   (t \<in> set (collection w) \<and> ref_id (user t) = user_id \<and> created_at t = lo
      \<longrightarrow> t \<in> set (fst (get_user_actions user_id (Some lo) None w))) \<and>
   (t \<in> set (collection w) \<and> ref_id (user t) = user_id \<and> created_at t = hi
      \<longrightarrow> t \<in> set (fst (get_user_actions user_id None (Some hi) w)))"
proof (intro conjI)
  show "set (fst (get_user_actions user_id start_date end_date w)) =
     {t \<in> set (collection w).
        ref_id (user t) = user_id \<and> in_closed_range start_date end_date (created_at t)}"
    by (rule get_user_actions_set)
  show "set (fst (get_user_actions_by_domain user_id domain' start_date end_date w)) =
     {t \<in> set (collection w).
        ref_id (user t) = user_id \<and> domain t = domain' \<and>
        in_closed_range start_date end_date (created_at t)}"
    by (rule get_user_actions_by_domain_set)
  show "fst (get_user_karma user_id start_date end_date w) =
     Inr (sum_list (map points (fst (get_user_actions user_id start_date end_date w))))"
    by (rule karma_is_sum_over_actions)
  show "fst (get_user_karma_by_domain user_id domain' start_date end_date w) =
     Inr (sum_list (map points
            (fst (get_user_actions_by_domain user_id domain' start_date end_date w))))"
    by (rule karma_by_domain_is_sum_over_actions)
  show "t \<in> set (collection w) \<and> ref_id (user t) = user_id \<and> lo \<le> hi \<and>
    (created_at t = lo \<or> created_at t = hi)
      \<longrightarrow> t \<in> set (fst (get_user_actions user_id (Some lo) (Some hi) w))"
    by (auto simp: get_user_actions_set in_closed_range_def)
  show "t \<in> set (collection w) \<and> ref_id (user t) = user_id \<and> domain t = domain' \<and> lo \<le> hi \<and>
    (created_at t = lo \<or> created_at t = hi)
      \<longrightarrow> t \<in> set (fst (get_user_actions_by_domain user_id domain' (Some lo) (Some hi) w))"
    by (auto simp: get_user_actions_by_domain_set in_closed_range_def)
  show "t \<in> set (collection w) \<and> ref_id (user t) = user_id \<and> created_at t = lo
      \<longrightarrow> t \<in> set (fst (get_user_actions user_id (Some lo) None w))"
    by (auto simp: get_user_actions_set in_closed_range_def)
  show "t \<in> set (collection w) \<and> ref_id (user t) = user_id \<and> created_at t = hi
      \<longrightarrow> t \<in> set (fst (get_user_actions user_id None (Some hi) w))"
    by (auto simp: get_user_actions_set in_closed_range_def)
qed

theorem date_range_bounds_inclusive_witness:
  "like_x \<in> set (fst (get_user_actions ''A'' (Some 10) (Some 20) scenario)) \<and>
   like_y \<in> set (fst (get_user_actions ''A'' (Some 10) (Some 20) scenario)) \<and>
   like_x \<in> set (fst (get_user_actions_by_domain ''A'' ''x'' (Some 10) (Some 20) scenario)) \<and>
   fst (get_user_actions ''A'' (Some 10) (Some 20) scenario) = [like_y, like_x] \<and>
   fst (get_user_karma ''A'' (Some 10) (Some 20) scenario) = Inr 8 \<and>
   fst (get_user_karma ''A'' (Some 11) (Some 19) scenario) = Inr 0"
proof -
  have hx: "like_x \<in> set (collection scenario) \<and> ref_id (user like_x) = ''A'' \<and>
            domain like_x = ''x'' \<and> (10::int) \<le> 20 \<and> created_at like_x = 10"
    by (simp add: example_defs)
  have hy: "like_y \<in> set (collection scenario) \<and> ref_id (user like_y) = ''A'' \<and>
            (10::int) \<le> 20 \<and> created_at like_y = 20"
    by (simp add: example_defs)
  have l: "fst (get_user_actions ''A'' (Some 10) (Some 20) scenario) = [like_y, like_x]"
    by (simp add: repository_defs store_defs query_defs example_defs)
  have e: "fst (get_user_actions ''A'' (Some 11) (Some 19) scenario) = []"
    by (simp add: repository_defs store_defs query_defs example_defs)
  have p: "points like_x = 5 \<and> points like_y = 3"
    by (simp add: example_defs)
  show ?thesis
    using date_range_bounds_inclusive [of "''A''" "Some 10" "Some 20" scenario "''x''" like_x 10 20]
      date_range_bounds_inclusive [of "''A''" "Some 10" "Some 20" scenario "''x''" like_y 10 20]
      date_range_bounds_inclusive [of "''A''" "Some 11" "Some 19" scenario "''x''" like_x 11 19]
      hx hy l e p
    by simp
qed

section \<open>Order of the listings\<close>

lemma sorted_desc_sort_key:
  fixes f :: "'x \<Rightarrow> 'k::linordered_ab_group_add"
  shows "sorted_wrt (\<lambda>a b. f b \<le> f a) (sort_key (\<lambda>x. - f x) xs)"
proof -
  have "sorted (map (\<lambda>x. - f x) (sort_key (\<lambda>x. - f x) xs))"
    by (rule sorted_sort_key)
  then show ?thesis
    by (simp add: sorted_wrt_map)
qed

lemma sorted_wrt_adjacent:
  "sorted_wrt R xs \<Longrightarrow> Suc i < length xs \<Longrightarrow> R (xs ! i) (xs ! Suc i)"
  by (simp add: sorted_wrt_iff_nth_less)

text \<open>
  Claim C3. In every state of the store, the sequences returned by \<^verbatim>\<open>get_user_actions\<close>
  and \<^verbatim>\<open>get_user_actions_by_domain\<close> are sorted non-increasing by \<^verbatim>\<open>created_at\<close>: an
  earlier element's timestamp is greater than or equal to a later element's, in particular
  for every pair of adjacent elements.
\<close>

theorem actions_sorted_by_created_at_desc:
  "sorted_wrt (\<lambda>a b. created_at a \<ge> created_at b)
     (fst (get_user_actions user_id start_date end_date w)) \<and>
   sorted_wrt (\<lambda>a b. created_at a \<ge> created_at b)
     (fst (get_user_actions_by_domain user_id domain' start_date end_date w)) \<and>
   (Suc i < length (fst (get_user_actions user_id start_date end_date w)) \<longrightarrow>
      created_at (fst (get_user_actions user_id start_date end_date w) ! i)
        \<ge> created_at (fst (get_user_actions user_id start_date end_date w) ! Suc i)) \<and>
   (Suc j < length (fst (get_user_actions_by_domain user_id domain' start_date end_date w)) \<longrightarrow>
      created_at (fst (get_user_actions_by_domain user_id domain' start_date end_date w) ! j)
        \<ge> created_at (fst (get_user_actions_by_domain user_id domain' start_date end_date w) ! Suc j))"
proof -
  have a: "sorted_wrt (\<lambda>a b. created_at a \<ge> created_at b)
     (fst (get_user_actions user_id start_date end_date w))"
    by (simp add: get_user_actions_def find_def to_list_def sort_created_at_desc_def
        sorted_desc_sort_key)
  have b: "sorted_wrt (\<lambda>a b. created_at a \<ge> created_at b)
     (fst (get_user_actions_by_domain user_id domain' start_date end_date w))"
    by (simp add: get_user_actions_by_domain_def find_def to_list_def sort_created_at_desc_def
        sorted_desc_sort_key)
  show ?thesis
    using a b sorted_wrt_adjacent [OF a, of i] sorted_wrt_adjacent [OF b, of j]
    by simp
qed

theorem actions_sorted_by_created_at_desc_witness:
  "created_at (fst (get_user_actions ''A'' None None scenario) ! 0)
     \<ge> created_at (fst (get_user_actions ''A'' None None scenario) ! Suc 0) \<and>
   map created_at (fst (get_user_actions ''A'' None None scenario)) = [20, 10] \<and>
   map created_at (fst (get_user_actions_by_domain ''B'' ''x'' None None scenario)) = [30]"
proof -
  have l: "fst (get_user_actions ''A'' None None scenario) = [like_y, like_x]"
    by (simp add: repository_defs store_defs query_defs example_defs)
  have d: "fst (get_user_actions_by_domain ''B'' ''x'' None None scenario) = [post_x]"
    by (simp add: repository_defs store_defs query_defs example_defs)
  have c: "created_at like_y = 20 \<and> created_at like_x = 10 \<and> created_at post_x = 30"
    by (simp add: example_defs)
  have n: "Suc 0 < length (fst (get_user_actions ''A'' None None scenario))"
    by (simp add: l)
  show ?thesis
    using actions_sorted_by_created_at_desc [of "''A''" None None scenario "''x''" 0 0] n
    by (simp add: l d c)
qed

section \<open>Actions of one calendar day\<close>

lemma time_max_last_microsecond: "time_max = microseconds_per_day - 1"
  by (simp add: time_max_def microseconds_per_day_def)

lemma same_day_iff:
  "(combine (date_of d) time_min \<le> v \<and> v \<le> combine (date_of d) time_max) =
     (date_of v = date_of d)"
proof
  assume b: "combine (date_of d) time_min \<le> v \<and> v \<le> combine (date_of d) time_max"
  have "v div microseconds_per_day = date_of d"
  proof (rule int_div_pos_eq [where r = "v - microseconds_per_day * date_of d"])
    show "v = microseconds_per_day * date_of d + (v - microseconds_per_day * date_of d)"
      by simp
    show "0 \<le> v - microseconds_per_day * date_of d"
      using b by (simp add: combine_def time_min_def mult.commute)
    show "v - microseconds_per_day * date_of d < microseconds_per_day"
      using b by (simp add: combine_def time_max_last_microsecond mult.commute)
  qed
  then show "date_of v = date_of d"
    by (simp add: date_of_def)
next
  assume e: "date_of v = date_of d"
  have pos: "0 < microseconds_per_day"
    by (simp add: microseconds_per_day_def)
  have v: "v = date_of v * microseconds_per_day + v mod microseconds_per_day"
    by (simp add: date_of_def)
  have "0 \<le> v mod microseconds_per_day" "v mod microseconds_per_day < microseconds_per_day"
    using pos by simp_all
  with v e show "combine (date_of d) time_min \<le> v \<and> v \<le> combine (date_of d) time_max"
    by (simp add: combine_def time_min_def time_max_last_microsecond)
qed

lemma get_user_actions_today_filter:
  "fst (get_user_actions_today u a d w) =
     filter (\<lambda>t. ref_id (user t) = u \<and> action_type t = a \<and>
                 combine (date_of d) time_min \<le> created_at t \<and>
                 created_at t \<le> combine (date_of d) time_max) (collection w)"
  unfolding get_user_actions_today_def Let_def find_def to_list_def
  by (simp add: matches_def eq_cond_def range_cond_def cong: filter_cong)

lemma next_day_start: "combine (day + 1) time_min = combine day time_max + 1"
  by (simp add: combine_def time_min_def time_max_last_microsecond algebra_simps)

text \<open>
  Claim C4. In every state of the store, for every user, action type \<open>T\<close> and reference
  date \<open>D\<close>, \<^verbatim>\<open>get_user_actions_today\<close> returns exactly the persisted transactions of
  that user and action type whose \<^verbatim>\<open>created_at\<close> lies in the closed interval from
  \<open>D\<close> 00:00:00.000000 to \<open>D\<close> 23:59:59.999999, which are the transactions made on the
  calendar day of \<open>D\<close>. A transaction at \<open>D\<close> 23:59:59.999999 is included; one at
  00:00:00.000000 of the next day, one microsecond later, is excluded.
\<close>

theorem actions_today_is_the_calendar_day:
  "fst (get_user_actions_today user_id action date w) =
     filter (\<lambda>t. ref_id (user t) = user_id \<and> action_type t = action \<and>
                 combine (date_of date) time_min \<le> created_at t \<and>
                 created_at t \<le> combine (date_of date) time_max) (collection w) \<and>
   fst (get_user_actions_today user_id action date w) =
     filter (\<lambda>t. ref_id (user t) = user_id \<and> action_type t = action \<and>
                 date_of (created_at t) = date_of date) (collection w) \<and>
   time_min = 0 \<and> time_max = 86399999999 \<and>
   combine (date_of date + 1) time_min = combine (date_of date) time_max + 1 \<and>
   (t \<in> set (collection w) \<and> ref_id (user t) = user_id \<and> action_type t = action \<and>
    created_at t = combine (date_of date) time_max
      \<longrightarrow> t \<in> set (fst (get_user_actions_today user_id action date w))) \<and>
   (created_at t = combine (date_of date + 1) time_min
      \<longrightarrow> t \<notin> set (fst (get_user_actions_today user_id action date w)))"
proof (intro conjI)
  show "fst (get_user_actions_today user_id action date w) =
     filter (\<lambda>t. ref_id (user t) = user_id \<and> action_type t = action \<and>
                 combine (date_of date) time_min \<le> created_at t \<and>
                 created_at t \<le> combine (date_of date) time_max) (collection w)"
    by (rule get_user_actions_today_filter)
  show "fst (get_user_actions_today user_id action date w) =
     filter (\<lambda>t. ref_id (user t) = user_id \<and> action_type t = action \<and>
                 date_of (created_at t) = date_of date) (collection w)"
    by (simp only: get_user_actions_today_filter same_day_iff)
  show "time_min = 0"
    by (simp add: time_min_def)
  show "time_max = 86399999999"
    by (simp add: time_max_def)
  show "combine (date_of date + 1) time_min = combine (date_of date) time_max + 1"
    by (rule next_day_start)
  show "t \<in> set (collection w) \<and> ref_id (user t) = user_id \<and> action_type t = action \<and>
    created_at t = combine (date_of date) time_max
      \<longrightarrow> t \<in> set (fst (get_user_actions_today user_id action date w))"
    by (simp add: get_user_actions_today_filter combine_def time_min_def time_max_def)
  show "created_at t = combine (date_of date + 1) time_min
      \<longrightarrow> t \<notin> set (fst (get_user_actions_today user_id action date w))"
    by (simp add: get_user_actions_today_filter next_day_start)
qed

theorem actions_today_is_the_calendar_day_witness:
  "fst (get_user_actions_today ''A'' ''LIKE'' 100000000000 day_log) =
     [stamped ''LIKE'' 1 86400000000, stamped ''LIKE'' 3 172799999999] \<and>
   combine (date_of 100000000000) time_max = 172799999999 \<and>
   combine (date_of 100000000000 + 1) time_min = 172800000000 \<and>
   stamped ''LIKE'' 3 172799999999
     \<in> set (fst (get_user_actions_today ''A'' ''LIKE'' 100000000000 day_log)) \<and>
   stamped ''LIKE'' 4 172800000000
     \<notin> set (fst (get_user_actions_today ''A'' ''LIKE'' 100000000000 day_log))"
proof -
  have d: "date_of 100000000000 = 1"
    by (simp add: date_of_def microseconds_per_day_def)
  have hi: "combine (date_of 100000000000) time_max = 172799999999"
    by (simp add: d combine_def time_max_def microseconds_per_day_def)
  have lo: "combine (date_of 100000000000 + 1) time_min = 172800000000"
    by (simp add: d combine_def time_min_def microseconds_per_day_def)
  have m: "stamped ''LIKE'' 3 172799999999 \<in> set (collection day_log) \<and>
           ref_id (user (stamped ''LIKE'' 3 172799999999)) = ''A'' \<and>
           action_type (stamped ''LIKE'' 3 172799999999) = ''LIKE'' \<and>
           created_at (stamped ''LIKE'' 3 172799999999) = 172799999999 \<and>
           created_at (stamped ''LIKE'' 4 172800000000) = 172800000000"
    by (simp add: example_defs)
  have f: "filter (\<lambda>t. ref_id (user t) = ''A'' \<and> action_type t = ''LIKE'' \<and>
                       date_of (created_at t) = date_of 100000000000) (collection day_log) =
           [stamped ''LIKE'' 1 86400000000, stamped ''LIKE'' 3 172799999999]"
    by (simp add: d) (simp add: example_defs date_of_def microseconds_per_day_def)
  show ?thesis
    using actions_today_is_the_calendar_day
        [of "''A''" "''LIKE''" 100000000000 day_log "stamped ''LIKE'' 3 172799999999"]
      actions_today_is_the_calendar_day
        [of "''A''" "''LIKE''" 100000000000 day_log "stamped ''LIKE'' 4 172800000000"]
      hi lo m f
    by (simp add: stamped_def)
qed

section \<open>The leaderboard\<close>

lemma set_ids_accumulate:
  "set (map group_id (accumulate t gs)) = insert (ref_id (user t)) (set (map group_id gs))"
  by (induction gs) auto

lemma distinct_ids_accumulate:
  "distinct (map group_id gs) \<Longrightarrow> distinct (map group_id (accumulate t gs))"
proof (induction gs)
  case Nil
  then show ?case by simp
next
  case (Cons g gs)
  have "group_id g \<notin> set (map group_id (accumulate t gs))" if "group_id g \<noteq> ref_id (user t)"
    using that Cons.prems by (simp only: set_ids_accumulate) simp
  with Cons show ?case by auto
qed

lemma total_of_accumulate:
  "total_of (accumulate t gs) u =
     total_of gs u + (if ref_id (user t) = u then points t else 0)"
  by (induction gs) (auto simp: total_of_def algebra_simps)

lemma user_total_Cons:
  "user_total (t # ds) u = (if ref_id (user t) = u then points t else 0) + user_total ds u"
  by (simp add: user_total_def)

lemma fold_accumulate:
  "set (map group_id (fold accumulate ds acc)) =
     set (map (\<lambda>t. ref_id (user t)) ds) \<union> set (map group_id acc)"
  "distinct (map group_id acc) \<Longrightarrow> distinct (map group_id (fold accumulate ds acc))"
  "total_of (fold accumulate ds acc) u = total_of acc u + user_total ds u"
proof (induction ds arbitrary: acc)
  case Nil
  { case 1 show ?case by simp }
  { case 2 then show ?case by simp }
  { case 3 show ?case by (simp add: user_total_def) }
next
  case (Cons t ds)
  { case 1 show ?case
      by (simp only: fold_simps Cons.IH(1) set_ids_accumulate) auto }
  { case 2 then show ?case
      by (simp only: fold_simps) (intro Cons.IH(2) distinct_ids_accumulate) }
  { case 3 show ?case
      by (simp only: fold_simps Cons.IH(3) total_of_accumulate user_total_Cons)
         (simp add: algebra_simps) }
qed

lemma total_of_absent:
  "u \<notin> set (map group_id gs) \<Longrightarrow> total_of gs u = 0"
  by (induction gs) (auto simp: total_of_def)

lemma total_of_distinct:
  "distinct (map group_id gs) \<Longrightarrow> g \<in> set gs \<Longrightarrow> total_of gs (group_id g) = total_points g"
proof (induction gs)
  case Nil
  then show ?case by simp
next
  case (Cons a gs)
  show ?case
  proof (cases "g = a")
    case True
    have "total_of gs (group_id a) = 0"
      using Cons.prems(1) by (intro total_of_absent) simp
    then show ?thesis
      using True by (simp add: total_of_def)
  next
    case False
    with Cons.prems have in_gs: "g \<in> set gs" and "group_id a \<noteq> group_id g"
      by auto
    with Cons show ?thesis
      by (simp add: total_of_def)
  qed
qed

lemma group_by_user_ids:
  "set (map group_id (group_by_user ds)) = set (users_of ds)"
  "distinct (map group_id (group_by_user ds))"
proof -
  show "set (map group_id (group_by_user ds)) = set (users_of ds)"
    unfolding group_by_user_def users_of_def
    by (simp only: fold_accumulate(1) set_remdups) simp
  show "distinct (map group_id (group_by_user ds))"
    unfolding group_by_user_def
    by (rule fold_accumulate(2)) simp
qed

lemma group_by_user_total:
  assumes "g \<in> set (group_by_user ds)"
  shows "total_points g = user_total ds (group_id g)"
proof -
  have "total_of (group_by_user ds) (group_id g) = total_points g"
    using assms by (intro total_of_distinct group_by_user_ids)
  moreover have "total_of (group_by_user ds) (group_id g) = user_total ds (group_id g)"
    by (simp only: group_by_user_def fold_accumulate(3)) (simp add: total_of_def)
  ultimately show ?thesis by simp
qed

lemma mset_group_ids: "mset (map group_id (group_by_user ds)) = mset (users_of ds)"
proof -
  have "distinct (users_of ds)"
    by (simp add: users_of_def)
  with group_by_user_ids(2) [of ds]
  have "(set (map group_id (group_by_user ds)) = set (users_of ds)) =
        (mset (map group_id (group_by_user ds)) = mset (users_of ds))"
    by (rule set_eq_iff_mset_eq_distinct)
  with group_by_user_ids(1) [of ds] show ?thesis
    by (rule rev_iffD1)
qed

lemma mset_group_totals:
  "mset (map total_points (group_by_user ds)) = mset (map (user_total ds) (users_of ds))"
proof -
  have "map total_points (group_by_user ds) =
        map (user_total ds) (map group_id (group_by_user ds))"
    by (simp add: group_by_user_total)
  then have "mset (map total_points (group_by_user ds)) =
             image_mset (user_total ds) (mset (map group_id (group_by_user ds)))"
    by (simp only: mset_map)
  then show ?thesis
    unfolding mset_group_ids by simp
qed

lemma keys_of_sort_desc:
  fixes f :: "'x \<Rightarrow> 'k::linordered_ab_group_add"
  shows "map f (sort_key (\<lambda>x. - f x) xs) = rev (sort (map f xs))"
proof -
  have "sort (map f xs) = rev (map f (sort_key (\<lambda>x. - f x) xs))"
  proof (rule properties_for_sort)
    show "mset (rev (map f (sort_key (\<lambda>x. - f x) xs))) = mset (map f xs)"
      by simp
    have "sorted_wrt (\<lambda>a b. b \<le> a) (map f (sort_key (\<lambda>x. - f x) xs))"
      using sorted_desc_sort_key [of f xs] by (simp add: sorted_wrt_map)
    then show "sorted (rev (map f (sort_key (\<lambda>x. - f x) xs)))"
      by (simp add: sorted_wrt_rev)
  qed
  then show ?thesis by simp
qed

lemma sort_cong_mset: "mset xs = mset ys \<Longrightarrow> sort xs = sort ys"
  by (rule properties_for_sort) simp_all

lemma match_stage_top:
  "match_stage (if truthy d then empty_query\<lparr>q_domain := d\<rparr> else empty_query) ds =
     in_domain d ds"
proof (cases "truthy d")
  case True
  then obtain x where d: "d = Some x" "x \<noteq> []"
    by (auto simp: truthy_def split: option.splits)
  have "matches (empty_query\<lparr>q_domain := Some x\<rparr>) t = (domain t = x)" for t :: "('a, 'b) karma_transaction"
    by (simp add: matches_def empty_query_def eq_cond_def range_cond_def)
  with d True show ?thesis
    by (simp add: match_stage_def in_domain_def cong: filter_cong)
next
  case False
  then show ?thesis
    by (auto simp: truthy_def in_domain_def match_stage_empty_query split: option.splits)
qed

lemma get_top_users_result:
  "0 < limit \<Longrightarrow>
   fst (get_top_users limit d w) =
     Inr (take (nat limit) (sort_total_points_desc (group_by_user (in_domain d (collection w)))))"
proof -
  assume "0 < limit"
  then have "limit_stage limit xs = Inr (take (nat limit) xs)" for xs :: "'c user_group list"
    by (simp add: limit_stage_def)
  then show ?thesis
    unfolding get_top_users_def aggregate_top_def Let_def prod.case fst_conv
    by (simp only: match_stage_top map_sum_to_list_None)
qed

lemma sorted_groups:
  "mset (sort_total_points_desc gs) = mset gs"
  "sorted_wrt (\<lambda>a b. total_points b \<le> total_points a) (sort_total_points_desc gs)"
  "map total_points (sort_total_points_desc gs) = rev (sort (map total_points gs))"
proof -
  show "mset (sort_total_points_desc gs) = mset gs"
    by (simp add: sort_total_points_desc_def)
  show "sorted_wrt (\<lambda>a b. total_points b \<le> total_points a) (sort_total_points_desc gs)"
    unfolding sort_total_points_desc_def by (rule sorted_desc_sort_key)
  show "map total_points (sort_total_points_desc gs) = rev (sort (map total_points gs))"
    unfolding sort_total_points_desc_def by (rule keys_of_sort_desc)
qed

lemma sorted_groups_of_users:
  fixes ds :: "('a, 'p::linordered_ab_group_add) karma_transaction list"
  defines "S \<equiv> sort_total_points_desc (group_by_user ds)"
  shows "set (map group_id S) = set (users_of ds)"
    and "distinct (map group_id S)"
    and "length S = length (users_of ds)"
    and "g \<in> set S \<Longrightarrow> total_points g = user_total ds (group_id g)"
    and "map total_points S = rev (sort (map (user_total ds) (users_of ds)))"
proof -
  have m: "mset S = mset (group_by_user ds)"
    by (simp add: S_def sorted_groups(1))
  then have ids: "mset (map group_id S) = mset (users_of ds)"
    by (simp only: mset_map mset_group_ids [symmetric])
  from ids show "set (map group_id S) = set (users_of ds)"
    by (rule mset_eq_setD)
  have "distinct (users_of ds)"
    by (simp add: users_of_def)
  with mset_eq_imp_distinct_iff [OF ids] show "distinct (map group_id S)"
    by (rule iffD2)
  from ids have "size (mset (map group_id S)) = size (mset (users_of ds))"
    by (rule arg_cong)
  then show "length S = length (users_of ds)"
    by (simp only: size_mset length_map)
  show "total_points g = user_total ds (group_id g)" if "g \<in> set S"
  proof -
    from m have "set S = set (group_by_user ds)"
      by (rule mset_eq_setD)
    with that show ?thesis
      by (simp add: group_by_user_total)
  qed
  show "map total_points S = rev (sort (map (user_total ds) (users_of ds)))"
    by (simp only: S_def sorted_groups(3) sort_cong_mset [OF mset_group_totals])
qed

lemma beyond_the_limit:
  fixes S :: "('p::linordered_ab_group_add) user_group list"
  assumes "sorted_wrt (\<lambda>a b. total_points b \<le> total_points a) S"
    and "g \<in> set (take n S)" and "h \<in> set S" and "group_id h \<notin> set (map group_id (take n S))"
  shows "total_points h \<le> total_points g"
proof -
  have "h \<notin> set (take n S)"
    using assms(4) by auto
  moreover have "set S = set (take n S) \<union> set (drop n S)"
    by (metis append_take_drop_id set_append)
  ultimately have "h \<in> set (drop n S)"
    using assms(3) by simp
  moreover have "sorted_wrt (\<lambda>a b. total_points b \<le> total_points a) (take n S @ drop n S)"
    using assms(1) by simp
  ultimately show ?thesis
    using assms(2) by (simp only: sorted_wrt_append)
qed

text \<open>
  Claim C5. In every state of the store, for every positive limit and every optional
  domain, \<^verbatim>\<open>get_top_users\<close> returns the per-user groups of the matching transactions
  (one group for each user, holding the sum of that user's points), sorted by
  \<^verbatim>\<open>total_points\<close> descending and truncated to the limit. The totals returned are the
  \<open>limit\<close> highest user totals, in descending order, and no user left out has a total
  above a returned one. With limit 3 over five users with distinct totals, these are the
  three highest totals.
\<close>

theorem top_users_sorted_and_truncated:
  assumes "0 < limit"
  shows "\<exists>r. fst (get_top_users limit domain' w) = Inr r \<and>
     length r = min (nat limit) (length (users_of (in_domain domain' (collection w)))) \<and>
     distinct (map group_id r) \<and>
     (\<forall>g \<in> set r.
        group_id g \<in> set (users_of (in_domain domain' (collection w))) \<and>
        total_points g = user_total (in_domain domain' (collection w)) (group_id g)) \<and>
     sorted_wrt (\<lambda>a b. total_points a \<ge> total_points b) r \<and>
     map total_points r =
       take (nat limit)
         (rev (sort (map (user_total (in_domain domain' (collection w)))
                      (users_of (in_domain domain' (collection w)))))) \<and>
     (\<forall>u \<in> set (users_of (in_domain domain' (collection w))).
        u \<notin> set (map group_id r) \<longrightarrow>
        (\<forall>g \<in> set r. user_total (in_domain domain' (collection w)) u \<le> total_points g))"
proof -
  let ?M = "in_domain domain' (collection w)"
  let ?S = "sort_total_points_desc (group_by_user ?M)"
  let ?r = "take (nat limit) ?S"
  note S = sorted_groups_of_users [where ds = ?M]
  have srt: "sorted_wrt (\<lambda>a b. total_points b \<le> total_points a) ?S"
    by (rule sorted_groups(2))
  have sub: "set ?r \<subseteq> set ?S"
    by (rule set_take_subset)
  have 1: "fst (get_top_users limit domain' w) = Inr ?r"
    using assms by (rule get_top_users_result)
  have 2: "length ?r = min (nat limit) (length (users_of ?M))"
    by (simp add: S(3) min.commute)
  have 3: "distinct (map group_id ?r)"
    using S(2) by (simp only: take_map [symmetric] distinct_take)
  have 4: "\<forall>g \<in> set ?r. group_id g \<in> set (users_of ?M) \<and>
             total_points g = user_total ?M (group_id g)"
  proof
    fix g assume "g \<in> set ?r"
    with sub have g: "g \<in> set ?S" by blast
    then have "group_id g \<in> set (map group_id ?S)" by simp
    with S(1) S(4) [OF g]
    show "group_id g \<in> set (users_of ?M) \<and> total_points g = user_total ?M (group_id g)"
      by simp
  qed
  have 5: "sorted_wrt (\<lambda>a b. total_points a \<ge> total_points b) ?r"
    using srt by (rule sorted_wrt_take)
  have 6: "map total_points ?r =
           take (nat limit) (rev (sort (map (user_total ?M) (users_of ?M))))"
    by (simp only: take_map [symmetric] S(5))
  have 7: "\<forall>u \<in> set (users_of ?M). u \<notin> set (map group_id ?r) \<longrightarrow>
             (\<forall>g \<in> set ?r. user_total ?M u \<le> total_points g)"
  proof (intro ballI impI)
    fix u g
    assume u: "u \<in> set (users_of ?M)" "u \<notin> set (map group_id ?r)" and g: "g \<in> set ?r"
    from u(1) have "u \<in> set (map group_id ?S)"
      by (simp only: S(1))
    then obtain h where h: "h \<in> set ?S" "group_id h = u"
      by auto
    with u(2) have "group_id h \<notin> set (map group_id ?r)"
      by simp
    with srt g h(1) have "total_points h \<le> total_points g"
      by (rule beyond_the_limit)
    with S(4) [OF h(1)] h(2) show "user_total ?M u \<le> total_points g"
      by simp
  qed
  from 1 2 3 4 5 6 7 show ?thesis
    by blast
qed

lemma leaderboard_groups:
  "group_by_user (collection leaderboard) =
     [\<lparr>group_id = ''u1'', total_points = 7, group_user = \<lparr>ref_id = ''u1'', display_name = ''u1''\<rparr>\<rparr>,
      \<lparr>group_id = ''u2'', total_points = 12, group_user = \<lparr>ref_id = ''u2'', display_name = ''u2''\<rparr>\<rparr>,
      \<lparr>group_id = ''u3'', total_points = 1, group_user = \<lparr>ref_id = ''u3'', display_name = ''u3''\<rparr>\<rparr>,
      \<lparr>group_id = ''u4'', total_points = 9, group_user = \<lparr>ref_id = ''u4'', display_name = ''u4''\<rparr>\<rparr>,
      \<lparr>group_id = ''u5'', total_points = 15, group_user = \<lparr>ref_id = ''u5'', display_name = ''u5''\<rparr>\<rparr>]"
  by (simp add: group_by_user_def leaderboard_def earned_def)

lemma leaderboard_top3:
  "take (nat 3) (sort_total_points_desc (group_by_user (collection leaderboard))) =
     [\<lparr>group_id = ''u5'', total_points = 15, group_user = \<lparr>ref_id = ''u5'', display_name = ''u5''\<rparr>\<rparr>,
      \<lparr>group_id = ''u2'', total_points = 12, group_user = \<lparr>ref_id = ''u2'', display_name = ''u2''\<rparr>\<rparr>,
      \<lparr>group_id = ''u4'', total_points = 9, group_user = \<lparr>ref_id = ''u4'', display_name = ''u4''\<rparr>\<rparr>]"
  unfolding leaderboard_groups by (simp add: sort_total_points_desc_def)

theorem top_users_sorted_and_truncated_witness:
  "map (user_total (collection leaderboard)) (users_of (collection leaderboard)) =
     [12, 1, 7, 9, 15] \<and>
   (\<exists>r. fst (get_top_users 3 None leaderboard) = Inr r \<and>
        map total_points r = [15, 12, 9] \<and>
        map group_id r = [''u5'', ''u2'', ''u4''] \<and>
        length r = 3)"
proof -
  have d: "in_domain None (collection leaderboard) = collection leaderboard"
    by (simp add: in_domain_def)
  have u: "users_of (collection leaderboard) = [''u2'', ''u3'', ''u1'', ''u4'', ''u5'']"
    by (simp add: users_of_def leaderboard_def earned_def)
  have t: "map (user_total (collection leaderboard)) [''u2'', ''u3'', ''u1'', ''u4'', ''u5''] =
           [12, 1, 7, 9, 15]"
    by (simp add: user_total_def leaderboard_def earned_def)
  have s: "take (nat 3) (rev (sort [12, 1, 7, 9, 15 :: int])) = [15, 12, 9]"
    by simp
  have p: "(0::int) < 3"
    by simp
  have e: "fst (get_top_users 3 None leaderboard) =
           Inr (take (nat 3) (sort_total_points_desc (group_by_user (collection leaderboard))))"
    using get_top_users_result [OF p, of None leaderboard] by (simp only: d)
  have a: "map (user_total (collection leaderboard)) (users_of (collection leaderboard)) =
           [12, 1, 7, 9, 15]"
    by (simp only: u t)
  from top_users_sorted_and_truncated [OF p, of None leaderboard]
  have "\<exists>r. fst (get_top_users 3 None leaderboard) = Inr r \<and>
        map total_points r = [15, 12, 9] \<and>
        map group_id r = [''u5'', ''u2'', ''u4''] \<and>
        length r = 3"
  proof (elim exE conjE)
    fix r
    assume r: "fst (get_top_users 3 None leaderboard) = Inr r"
      and m: "map total_points r =
        take (nat 3)
          (rev (sort (map (user_total (in_domain None (collection leaderboard)))
                       (users_of (in_domain None (collection leaderboard))))))"
    from m have m': "map total_points r = [15, 12, 9]"
      by (simp only: d u t s)
    from r have "Inr r = fst (get_top_users 3 None leaderboard)"
      by (rule sym)
    then have r': "r = take (nat 3) (sort_total_points_desc (group_by_user (collection leaderboard)))"
      by (simp only: e sum.inject)
    have g: "map group_id r = [''u5'', ''u2'', ''u4''] \<and> length r = 3"
      unfolding r' leaderboard_top3 by simp
    show ?thesis
      using r m' g by (intro exI [of _ r]) simp
  qed
  with a show ?thesis
    by (rule conjI)
qed

section \<open>Additivity over domains\<close>

lemma sum_list_filter_disjoint:
  fixes f :: "'x \<Rightarrow> 'p::linordered_ab_group_add"
  assumes "\<And>x. \<not> (P x \<and> Q x)"
  shows "sum_list (map f (filter (\<lambda>x. P x \<or> Q x) xs)) =
         sum_list (map f (filter P xs)) + sum_list (map f (filter Q xs))"
  using assms by (induction xs) (auto simp: algebra_simps)

lemma sum_over_distinct_domains:
  fixes xs :: "('a, 'p::linordered_ab_group_add) karma_transaction list"
  assumes "distinct ds"
  shows "sum_list (map (\<lambda>d. sum_list (map points (filter (\<lambda>t. domain t = d) xs))) ds) =
         sum_list (map points (filter (\<lambda>t. domain t \<in> set ds) xs))"
  using assms
proof (induction ds)
  case Nil
  then show ?case by simp
next
  case (Cons d ds)
  have "sum_list (map points (filter (\<lambda>t. domain t = d \<or> domain t \<in> set ds) xs)) =
        sum_list (map points (filter (\<lambda>t. domain t = d) xs)) +
        sum_list (map points (filter (\<lambda>t. domain t \<in> set ds) xs))"
    using Cons.prems by (intro sum_list_filter_disjoint) auto
  with Cons show ?case by simp
qed

lemma filter_all_domains:
  "set (map domain xs) \<subseteq> set ds \<Longrightarrow> filter (\<lambda>t. domain t \<in> set ds) xs = xs"
  by (induction xs) auto

lemma sum_double_exact_prefixes:
  "(\<forall>n \<le> length ys. round_double (sum_list (take n ys)) = sum_list (take n ys))
     \<Longrightarrow> sum_double ys = sum_list ys"
proof (induction ys rule: rev_induct)
  case Nil
  then show ?case by (simp add: sum_double_def)
next
  case (snoc z zs)
  have "\<forall>n \<le> length zs. round_double (sum_list (take n zs)) = sum_list (take n zs)"
  proof (intro allI impI)
    fix n assume n: "n \<le> length zs"
    then have "take n (zs @ [z]) = take n zs" by simp
    moreover from n have "n \<le> length (zs @ [z])" by simp
    ultimately show "round_double (sum_list (take n zs)) = sum_list (take n zs)"
      using snoc.prems by metis
  qed
  then have zs: "sum_double zs = sum_list zs"
    by (rule snoc.IH)
  have "round_double (sum_list (take (length (zs @ [z])) (zs @ [z]))) =
        sum_list (take (length (zs @ [z])) (zs @ [z]))"
    using snoc.prems by blast
  then have "round_double (sum_list zs + z) = sum_list zs + z"
    by simp
  with zs show ?case
    by (simp add: sum_double_def double_add_def)
qed

lemma sum_double_exact_subseq:
  assumes "\<forall>xs. subseq xs ps \<longrightarrow> round_double (sum_list xs) = sum_list xs"
    and "subseq qs ps"
  shows "sum_double qs = sum_list qs"
proof (rule sum_double_exact_prefixes, intro allI impI)
  fix n
  have "subseq (take n qs) qs"
    by (rule prefix_imp_subseq) (rule take_is_prefix)
  with assms(2) have "subseq (take n qs) ps"
    by (rule subseq_order.trans [rotated])
  with assms(1) show "round_double (sum_list (take n qs)) = sum_list (take n qs)"
    by blast
qed

lemma karma_total_group_all_double:
  "karma_total (to_list (Some (Suc 0)) (group_all_double ds)) = Inr (sum_double (map points ds))"
  by (simp add: karma_total_def to_list_def group_all_double_def subscript_def sum_double_def)

lemma get_user_karma_double_sum:
  "fst (get_user_karma_double u s e w) =
     Inr (sum_double (map points (matching u s e (collection w))))"
  by (simp add: get_user_karma_double_def aggregate_total_double_def match_stage_user
      karma_total_group_all_double)

lemma get_user_karma_by_domain_double_sum:
  "fst (get_user_karma_by_domain_double u d s e w) =
     Inr (sum_double (map points (matching_in_domain u d s e (collection w))))"
  by (simp add: get_user_karma_by_domain_double_def aggregate_total_double_def
      match_stage_user_domain karma_total_group_all_double)

lemma sum_results_double_values:
  "foldl add_result (Inr a) (map (\<lambda>d. Inr (f d)) ds) = Inr (foldl double_add a (map f ds))"
  by (induction ds arbitrary: a) (simp_all add: add_result_def)


text \<open>
  Claim C6, as amended. In every state of the store and for every user whose points are
  such that every sum of some of them is again a double (no addition rounds, as with
  integer-valued points of moderate size), \<^verbatim>\<open>get_user_karma\<close> without date bounds
  equals the sum of \<^verbatim>\<open>get_user_karma_by_domain\<close> without date bounds over the domains in
  which the user has at least one transaction, each domain taken once.
\<close>

theorem karma_double_is_sum_over_domains:
  assumes "distinct ds"
    and "set ds = set (map domain (filter (\<lambda>t. ref_id (user t) = user_id) (collection w)))"
    and "\<forall>s \<in> set (map sum_list
                 (subseqs (map points
                    (filter (\<lambda>t. ref_id (user t) = user_id) (collection w))))).
           round_double s = s"
  shows "fst (get_user_karma_double user_id None None w) =
         sum_results_double
           (map (\<lambda>d. fst (get_user_karma_by_domain_double user_id d None None w)) ds)"
proof -
  let ?M = "matching user_id None None (collection w)"
  let ?t = "\<lambda>d. sum_list (map points (filter (\<lambda>t. domain t = d) ?M))"
  have M: "?M = filter (\<lambda>t. ref_id (user t) = user_id) (collection w)"
    by (simp add: matching_def in_closed_range_def)
  have exact: "\<forall>xs. subseq xs (map points ?M) \<longrightarrow> round_double (sum_list xs) = sum_list xs"
    using assms(3) by (simp add: M)
  have part: "sum_double (map points (filter P ?M)) = sum_list (map points (filter P ?M))" for P
  proof (rule sum_double_exact_subseq [OF exact])
    show "subseq (map points (filter P ?M)) (map points ?M)"
      by (rule subseq_map) (rule subseq_filter_left)
  qed
  have whole: "sum_double (map points ?M) = sum_list (map points ?M)"
    by (rule sum_double_exact_subseq [OF exact]) (rule subseq_order.refl)
  have "map (\<lambda>d. fst (get_user_karma_by_domain_double user_id d None None w)) ds =
        map (\<lambda>d. Inr (?t d)) ds"
    by (simp only: get_user_karma_by_domain_double_sum matching_in_domain_def part)
  then have "sum_results_double
          (map (\<lambda>d. fst (get_user_karma_by_domain_double user_id d None None w)) ds) =
        Inr (sum_double (map ?t ds))"
    by (simp only: sum_results_double_def sum_results_double_values sum_double_def)
  also have "sum_double (map ?t ds) = sum_list (map ?t ds)"
  proof (rule sum_double_exact_prefixes, intro allI impI)
    fix n
    have "distinct (take n ds)"
      using assms(1) by (rule distinct_take)
    then have "sum_list (map ?t (take n ds)) =
               sum_list (map points (filter (\<lambda>t. domain t \<in> set (take n ds)) ?M))"
      by (rule sum_over_distinct_domains)
    moreover have "round_double (sum_list (map points (filter (\<lambda>t. domain t \<in> set (take n ds)) ?M)))
                   = sum_list (map points (filter (\<lambda>t. domain t \<in> set (take n ds)) ?M))"
      using exact subseq_map [OF subseq_filter_left] by blast
    ultimately show "round_double (sum_list (take n (map ?t ds))) = sum_list (take n (map ?t ds))"
      by (simp only: take_map)
  qed
  also have "sum_list (map ?t ds) =
             sum_list (map points (filter (\<lambda>t. domain t \<in> set ds) ?M))"
    using assms(1) by (rule sum_over_distinct_domains)
  also have "filter (\<lambda>t. domain t \<in> set ds) ?M = ?M"
    by (rule filter_all_domains) (simp add: assms(2) M)
  finally show ?thesis
    by (simp only: get_user_karma_double_sum whole)
qed

lemma quarters_sums_are_doubles:
  "\<forall>s \<in> set (map sum_list (subseqs [1 / 2, 1 / 4, 3 / 4 :: rat])). round_double s = s"
  by code_simp

lemma quarters_sums:
  "sum_double [1 / 2, 1 / 4, 3 / 4] = 3 / 2"
  "sum_double [1 / 2, 3 / 4] = 5 / 4"
  "sum_double [1 / 4] = 1 / 4"
  by code_simp+

lemma collection_of_A:
  "matching ''A'' None None (collection tenths) = collection tenths"
  "matching ''A'' None None (collection quarters) = collection quarters"
  by (simp_all add: matching_def in_closed_range_def tenths_def quarters_def earned_in_def
      user_A_def)

theorem karma_double_is_sum_over_domains_witness:
  "fst (get_user_karma_double ''A'' None None quarters) =
     sum_results_double
       (map (\<lambda>d. fst (get_user_karma_by_domain_double ''A'' d None None quarters)) [''x'', ''y'']) \<and>
   fst (get_user_karma_double ''A'' None None quarters) = Inr (3 / 2) \<and>
   fst (get_user_karma_by_domain_double ''A'' ''x'' None None quarters) = Inr (5 / 4) \<and>
   fst (get_user_karma_by_domain_double ''A'' ''y'' None None quarters) = Inr (1 / 4)"
proof -
  have d: "distinct [''x'', ''y'']"
    by simp
  have s: "set [''x'', ''y''] =
           set (map domain (filter (\<lambda>t. ref_id (user t) = ''A'') (collection quarters)))"
    by (auto simp: quarters_def earned_in_def user_A_def)
  have p: "map points (filter (\<lambda>t. ref_id (user t) = ''A'') (collection quarters)) =
           [1 / 2, 1 / 4, 3 / 4]"
    by (simp add: quarters_def earned_in_def user_A_def)
  have e: "\<forall>s \<in> set (map sum_list
                 (subseqs (map points
                    (filter (\<lambda>t. ref_id (user t) = ''A'') (collection quarters))))).
           round_double s = s"
    unfolding p by (rule quarters_sums_are_doubles)
  have v: "fst (get_user_karma_double ''A'' None None quarters) = Inr (3 / 2) \<and>
           fst (get_user_karma_by_domain_double ''A'' ''x'' None None quarters) = Inr (5 / 4) \<and>
           fst (get_user_karma_by_domain_double ''A'' ''y'' None None quarters) = Inr (1 / 4)"
    unfolding get_user_karma_double_sum get_user_karma_by_domain_double_sum
      matching_in_domain_def collection_of_A
    by (simp add: quarters_def earned_in_def quarters_sums)
  from karma_double_is_sum_over_domains [OF d s e] v show ?thesis
    by (rule conjI)
qed

lemma tenths_sums:
  "sum_double [round_double (1 / 10), round_double (1 / 5), round_double (2 / 5)] =
     6305039478318695 / 9007199254740992"
  "sum_double [round_double (1 / 10), round_double (2 / 5)] = 1 / 2"
  "sum_double [round_double (1 / 5)] = 3602879701896397 / 18014398509481984"
  "double_add (double_add 0 (1 / 2)) (3602879701896397 / 18014398509481984) =
     6305039478318694 / 9007199254740992"
  "double_add (double_add 0 (3602879701896397 / 18014398509481984)) (1 / 2) =
     6305039478318694 / 9007199254740992"
  by code_simp+

text \<open>
  Claim C6 as the specification states it fails where an addition rounds. In \<open>tenths\<close>
  the total of user A is 0.7000000000000001, and the by-domain totals 0.5 and 0.2 add up
  to 0.7, whichever domain is taken first.
\<close>

theorem karma_double_differs_counterexample:
  "fst (get_user_karma_double ''A'' None None tenths) =
     Inr (6305039478318695 / 9007199254740992) \<and>
   sum_results_double
     (map (\<lambda>d. fst (get_user_karma_by_domain_double ''A'' d None None tenths)) [''x'', ''y'']) =
     Inr (6305039478318694 / 9007199254740992) \<and>
   sum_results_double
     (map (\<lambda>d. fst (get_user_karma_by_domain_double ''A'' d None None tenths)) [''y'', ''x'']) =
     Inr (6305039478318694 / 9007199254740992) \<and>
   fst (get_user_karma_double ''A'' None None tenths) \<noteq>
     sum_results_double
       (map (\<lambda>d. fst (get_user_karma_by_domain_double ''A'' d None None tenths)) [''x'', ''y''])"
proof -
  have t: "fst (get_user_karma_double ''A'' None None tenths) =
           Inr (6305039478318695 / 9007199254740992)"
    unfolding get_user_karma_double_sum collection_of_A
    by (simp add: tenths_def earned_in_def tenths_sums)
  have x: "fst (get_user_karma_by_domain_double ''A'' ''x'' None None tenths) = Inr (1 / 2)"
    unfolding get_user_karma_by_domain_double_sum matching_in_domain_def collection_of_A
    by (simp add: tenths_def earned_in_def tenths_sums)
  have y: "fst (get_user_karma_by_domain_double ''A'' ''y'' None None tenths) =
           Inr (3602879701896397 / 18014398509481984)"
    unfolding get_user_karma_by_domain_double_sum matching_in_domain_def collection_of_A
    by (simp add: tenths_def earned_in_def tenths_sums)
  have xy: "sum_results_double
     (map (\<lambda>d. fst (get_user_karma_by_domain_double ''A'' d None None tenths)) [''x'', ''y'']) =
     Inr (6305039478318694 / 9007199254740992)"
    by (simp add: x y sum_results_double_def add_result_def tenths_sums)
  have yx: "sum_results_double
     (map (\<lambda>d. fst (get_user_karma_by_domain_double ''A'' d None None tenths)) [''y'', ''x'']) =
     Inr (6305039478318694 / 9007199254740992)"
    by (simp add: x y sum_results_double_def add_result_def tenths_sums)
  show ?thesis
    unfolding t xy yx by simp
qed

section \<open>Creating a transaction\<close>

lemma insert_one_collection:
  "collection (snd (insert_one doc w)) =
     (case fst (insert_one doc w) of
        Inl e \<Rightarrow> collection w
      | Inr oid \<Rightarrow> collection w @ [doc\<lparr>txn_id := Some oid\<rparr>])"
  by (simp add: insert_one_def ObjectId_def Let_def split: option.splits prod.splits)

lemma create_transaction_collection:
  "collection (snd (create_transaction transaction w)) =
     (case fst (create_transaction transaction w) of
        Inl e \<Rightarrow> collection w
      | Inr t \<Rightarrow> collection w @ [t])"
  by (simp add: create_transaction_def insert_one_def now_def ObjectId_def Let_def
      split: option.splits prod.splits sum.splits)

lemma create_transaction_outcome:
  "fst (create_transaction transaction w) =
     (if Some (object_ids w (issued w)) \<in> set (map txn_id (collection w))
      then Inl DuplicateKeyError
      else Inr \<lparr>user = user transaction, action_type = action_type transaction,
                points = points transaction, domain = domain transaction,
                txn_id = Some (object_ids w (issued w)),
                created_at = wall_clock w (ticks w),
                updated_at = wall_clock w (Suc (ticks w))\<rparr>)"
  by (simp add: create_transaction_def insert_one_def now_def ObjectId_def Let_def)

lemma create_new_post:
  "fst (create_transaction new_post scenario) = Inr posted"
  by (simp add: create_transaction_def store_defs example_defs new_post_def posted_def)

text \<open>
  Claim C7, as amended. For every transaction input, \<^verbatim>\<open>create_transaction\<close> returns an
  entity unless the identifier the driver generates is already in the collection. The
  entity has that identifier, which is not null and is the identifier of no earlier
  record. Its \<^verbatim>\<open>created_at\<close> and \<^verbatim>\<open>updated_at\<close> are the first and the second reading
  of the clock taken by the call; on a clock that does not run backwards both are at or
  after the time observed just before the call, and \<^verbatim>\<open>created_at\<close> is at or before
  \<^verbatim>\<open>updated_at\<close>.
\<close>

theorem create_transaction_entity:
  assumes "mono (wall_clock w)"
  shows "case fst (create_transaction transaction (snd (now w))) of
           Inl e \<Rightarrow>
             e = DuplicateKeyError \<and>
             Some (object_ids w (issued w)) \<in> set (map txn_id (collection w))
         | Inr t \<Rightarrow>
             txn_id t = Some (object_ids w (issued w)) \<and>
             txn_id t \<notin> set (map txn_id (collection w)) \<and>
             created_at t = wall_clock w (Suc (ticks w)) \<and>
             updated_at t = wall_clock w (Suc (Suc (ticks w))) \<and>
             fst (now w) \<le> created_at t \<and> created_at t \<le> updated_at t"
proof -
  have 1: "wall_clock w (ticks w) \<le> wall_clock w (Suc (ticks w))"
    using assms by (simp add: mono_def)
  have 2: "wall_clock w (Suc (ticks w)) \<le> wall_clock w (Suc (Suc (ticks w)))"
    using assms by (simp add: mono_def)
  show ?thesis
    using 1 2 by (simp add: create_transaction_outcome now_def)
qed

theorem create_transaction_entity_witness:
  "fst (create_transaction new_post (snd (now scenario))) =
     Inr (posted\<lparr>created_at := 101, updated_at := 102\<rparr>) \<and>
   txn_id (posted\<lparr>created_at := 101, updated_at := 102\<rparr>) = Some 3 \<and>
   fst (now scenario) = 100"
proof -
  have m: "mono (wall_clock scenario)"
    by (simp add: scenario_def mono_def)
  have r: "fst (create_transaction new_post (snd (now scenario))) =
        Inr (posted\<lparr>created_at := 101, updated_at := 102\<rparr>)"
    by (simp add: create_transaction_outcome now_def example_defs new_post_def posted_def)
  have c: "collection scenario = [like_x, like_y, post_x]"
    by (simp add: scenario_def)
  have n: "fst (now scenario) = 100"
    by (simp add: now_def scenario_def)
  show ?thesis
    using create_transaction_entity [OF m, of new_post]
    by (simp add: r c n posted_def)
qed

text \<open>
  Claim C7 as the specification states it, \<^verbatim>\<open>created_at\<close> equal to \<^verbatim>\<open>updated_at\<close>,
  fails on a clock that advances between the two readings: in the scenario the new
  entity is stamped 100 and 101.
\<close>

theorem created_at_differs_from_updated_at_counterexample:
  "\<exists>t. fst (create_transaction new_post scenario) = Inr t \<and>
       created_at t = 100 \<and> updated_at t = 101 \<and> created_at t \<noteq> updated_at t"
  by (simp add: create_new_post posted_def)

section \<open>A limit that is not positive\<close>

text \<open>
  Claim C8, as amended. In every state of the store and for every non-positive limit,
  \<^verbatim>\<open>get_top_users\<close> returns no sequence: the limit reaches the limit stage of the store
  unchanged, the store refuses a limit that is not positive, and the refusal is the
  outcome of the call.
\<close>

theorem non_positive_limit_is_refused:
  "limit \<le> 0 \<Longrightarrow> fst (get_top_users limit domain' w) = Inl OperationFailure"
  by (simp add: get_top_users_def aggregate_top_def limit_stage_def)

theorem non_positive_limit_is_refused_witness:
  "fst (get_top_users 0 None scenario) = Inl OperationFailure \<and>
   fst (get_top_users (- 3) (Some ''x'') scenario) = Inl OperationFailure"
  using non_positive_limit_is_refused [of 0 None scenario]
    non_positive_limit_is_refused [of "- 3" "Some ''x''" scenario]
  by simp

text \<open>
  Claim C8 as the specification states it, an empty sequence for a non-positive limit,
  fails on the scenario with limit 0.
\<close>

theorem non_positive_limit_counterexample:
  "fst (get_top_users 0 None scenario) \<noteq> Inr []"
  by (simp add: get_top_users_def aggregate_top_def limit_stage_def)

section \<open>Effects on the store\<close>

text \<open>
  Claim C9. In every state of the store and for every input, each read operation
  (\<^verbatim>\<open>get_user_karma\<close>, \<^verbatim>\<open>get_user_karma_by_domain\<close>, \<^verbatim>\<open>get_user_actions\<close>,
  \<^verbatim>\<open>get_user_actions_by_domain\<close>, \<^verbatim>\<open>get_user_actions_today\<close>, \<^verbatim>\<open>get_top_users\<close>) leaves
  the persisted transactions as they were. Only \<^verbatim>\<open>create_transaction\<close> changes the
  store: when it returns an entity it has appended exactly that one record and has kept
  every earlier record, in place and unchanged; when the insertion is refused it has
  changed nothing.
\<close>

theorem reads_keep_store_create_appends:
  "snd (get_user_karma user_id start_date end_date w) = w \<and>
   snd (get_user_karma_by_domain user_id domain' start_date end_date w) = w \<and>
   snd (get_user_actions user_id start_date end_date w) = w \<and>
   snd (get_user_actions_by_domain user_id domain' start_date end_date w) = w \<and>
   snd (get_user_actions_today user_id action date w) = w \<and>
   snd (get_top_users limit top_domain w) = w \<and>
   collection (snd (create_transaction transaction w)) =
     (case fst (create_transaction transaction w) of
        Inl e \<Rightarrow> collection w
      | Inr t \<Rightarrow> collection w @ [t])"
proof (intro conjI)
  show "snd (get_user_karma user_id start_date end_date w) = w"
    by (simp add: get_user_karma_def aggregate_total_def)
  show "snd (get_user_karma_by_domain user_id domain' start_date end_date w) = w"
    by (simp add: get_user_karma_by_domain_def aggregate_total_def)
  show "snd (get_user_actions user_id start_date end_date w) = w"
    by (simp add: get_user_actions_def find_def)
  show "snd (get_user_actions_by_domain user_id domain' start_date end_date w) = w"
    by (simp add: get_user_actions_by_domain_def find_def)
  show "snd (get_user_actions_today user_id action date w) = w"
    by (simp add: get_user_actions_today_def find_def)
  show "snd (get_top_users limit top_domain w) = w"
    by (simp add: get_top_users_def aggregate_top_def)
  show "collection (snd (create_transaction transaction w)) =
     (case fst (create_transaction transaction w) of
        Inl e \<Rightarrow> collection w
      | Inr t \<Rightarrow> collection w @ [t])"
    by (rule create_transaction_collection)
qed

theorem reads_keep_store_create_appends_witness:
  "snd (get_user_karma ''A'' None None scenario) = scenario \<and>
   snd (get_top_users 10 None scenario) = scenario \<and>
   fst (create_transaction new_post scenario) = Inr posted \<and>
   collection (snd (create_transaction new_post scenario)) = [like_x, like_y, post_x, posted]"
proof -
  have c: "collection scenario = [like_x, like_y, post_x]"
    by (simp add: scenario_def)
  show ?thesis
    using reads_keep_store_create_appends
      [of "''A''" None None scenario "''x''" "''LIKE''" 0 10 None new_post]
    by (simp add: create_new_post c)
qed

section \<open>The empty domain\<close>

text \<open>
  Claim C10. In every state of the store and for every limit, \<^verbatim>\<open>get_top_users\<close> with the
  empty string as domain behaves as with no domain: no domain filter is applied, and the
  transactions of all domains are grouped, sorted and limited.
\<close>

theorem empty_domain_is_no_domain:
  "get_top_users limit (Some []) w = get_top_users limit None w \<and>
   fst (get_top_users limit (Some []) w) =
     limit_stage limit (sort_total_points_desc (group_by_user (collection w)))"
  by (simp add: get_top_users_def truthy_def aggregate_top_def match_stage_empty_query
      map_sum_to_list_None)

theorem empty_domain_is_no_domain_witness:
  "get_top_users 10 (Some []) scenario = get_top_users 10 None scenario \<and>
   map group_id (projr (fst (get_top_users 10 (Some []) scenario))) = [''B'', ''A''] \<and>
   map total_points (projr (fst (get_top_users 10 (Some []) scenario))) = [10, 8]"
proof -
  note both = empty_domain_is_no_domain [of 10 scenario]
  have h: "limit_stage 10 (sort_total_points_desc (group_by_user (collection scenario))) =
        Inr [\<lparr>group_id = ''B'', total_points = 10, group_user = user_B\<rparr>,
             \<lparr>group_id = ''A'', total_points = 8, group_user = user_A\<rparr>]"
    by (simp add: store_defs example_defs)
  have e: "get_top_users 10 (Some []) scenario = get_top_users 10 None scenario"
    by (rule both [THEN conjunct1])
  have r: "fst (get_top_users 10 (Some []) scenario) =
        Inr [\<lparr>group_id = ''B'', total_points = 10, group_user = user_B\<rparr>,
             \<lparr>group_id = ''A'', total_points = 8, group_user = user_A\<rparr>]"
    by (simp only: both [THEN conjunct2] h)
  show ?thesis
    by (rule conjI [OF e]) (simp add: r)
qed

end
